theory Spec2Isabelle
  imports Main
begin

section \<open>The redisconsumer package: data model\<close>

text \<open>
  The package \<^verbatim>\<open>redisconsumer\<close> reads Redis streams through a consumer group. Its
  collaborators (the go-redis client, the tracer, the user handler, the clock) are
  outside the repository; the model records every call made to them as an event of a
  trace and takes their answers as inputs.

  Go's \<^verbatim>\<open>int\<close>, \<^verbatim>\<open>int64\<close> and \<^verbatim>\<open>time.Duration\<close> fields are only compared with constants
  and handed on, never computed with, so they are modelled as \<open>int\<close>. The one
  subtraction, \<^verbatim>\<open>time.Since\<close>, saturates at the bounds of \<^verbatim>\<open>int64\<close>, which is written out.
\<close>

type_synonym Duration = int
type_synonym Time = int

definition Second :: Duration where
  "Second = 1000000000"

text \<open>
  Error values. \<^verbatim>\<open>redis.Nil\<close> is the constant \<^verbatim>\<open>proto.RedisError("redis: nil")\<close>, a string
  type, so \<^verbatim>\<open>err == redis.Nil\<close> compares the dynamic type and the text; server replies
  such as BUSYGROUP are of the same type. \<^verbatim>\<open>errors.New\<close> gives a value of another type.
\<close>

datatype error = RedisError string | ErrorString string

definition redis_Nil :: error where
  "redis_Nil = RedisError ''redis: nil''"

fun Error :: "error \<Rightarrow> string" where
  "Error (RedisError s) = s"
| "Error (ErrorString s) = s"

datatype tracer = NamedTracer string

datatype Context = Background | WithCancel Context

record XMessage =
  ID :: string
  Values :: "(string \<times> string) list"

record XStream =
  Stream :: string
  Messages :: "XMessage list"

type_synonym Handler = "string \<Rightarrow> XMessage \<Rightarrow> error option"

record ConsumerConfig =
  Addr :: string
  Password :: string
  User :: string
  DB :: int
  Streams :: "string list"
  Group :: string
  ConsumerName :: string
  ReadCount :: int
  BlockTime :: Duration
  Concurrency :: int
  HealthAddr :: string
  AckOnSuccess :: bool
  Tracer :: "tracer option"

record redis_Options =
  opt_Addr :: string
  opt_Username :: string
  opt_Password :: string
  opt_DB :: int

text \<open>
  The \<^verbatim>\<open>Consumer\<close> struct. The three mutexes guard \<open>started\<close> and \<open>lastPoll\<close>; every
  function below runs its critical section as one step, so they carry no state of
  their own. \<open>wg\<close> is the counter of the wait group, \<open>cancel\<close> the context whose
  cancel function is stored (\<open>None\<close> for nil). The handler is stored as the function
  itself: the only struct literal is reached after the nil check.
\<close>

record Consumer =
  cfg :: ConsumerConfig
  client :: redis_Options
  handler :: Handler
  wg :: int
  cancel :: "Context option"
  started :: bool
  lastPoll :: Time

section \<open>Construction\<close>

definition otel_Tracer :: "string \<Rightarrow> tracer" where
  "otel_Tracer name = NamedTracer name"

definition redis_NewClient :: "redis_Options \<Rightarrow> redis_Options" where
  "redis_NewClient opts = opts"

text \<open>\<^verbatim>\<open>NewConsumer(cfg, handler)\<close>; \<open>now\<close> is what \<^verbatim>\<open>time.Now()\<close> returns at line 81.\<close>

definition NewConsumer :: "ConsumerConfig \<Rightarrow> Handler option \<Rightarrow> Time \<Rightarrow> error + Consumer" where
  "NewConsumer cfg0 handler0 now =
     (case handler0 of
        None \<Rightarrow> Inl (ErrorString ''handler required'')
      | Some h \<Rightarrow>
          if length (Streams cfg0) = 0 \<or> Group cfg0 = '''' then
            Inl (ErrorString ''streams and group are required'')
          else
            let cfg1 = (if Concurrency cfg0 \<le> 0 then cfg0\<lparr>Concurrency := 1\<rparr> else cfg0);
                cfg2 = (if ReadCount cfg1 = 0 then cfg1\<lparr>ReadCount := 10\<rparr> else cfg1);
                cfg3 = (if BlockTime cfg2 = 0 then cfg2\<lparr>BlockTime := 5 * Second\<rparr> else cfg2);
                cfg4 = (if Tracer cfg3 = None
                        then cfg3\<lparr>Tracer := Some (otel_Tracer ''redisconsumer'')\<rparr> else cfg3);
                rdb = redis_NewClient \<lparr>opt_Addr = Addr cfg4, opt_Username = User cfg4,
                                       opt_Password = Password cfg4, opt_DB = DB cfg4\<rparr>
            in Inr \<lparr>cfg = cfg4, client = rdb, handler = h, wg = 0, cancel = None,
                    started = False, lastPoll = now\<rparr>)"

section \<open>Liveness\<close>

text \<open>
  \<^verbatim>\<open>Time.Sub\<close> returns the difference as a \<^verbatim>\<open>Duration\<close>, an \<^verbatim>\<open>int64\<close> of nanoseconds,
  and saturates at its largest and smallest value.
\<close>

definition time_Sub :: "Time \<Rightarrow> Time \<Rightarrow> Duration" where
  "time_Sub t u =
     (let d = t - u in
      if d > 9223372036854775807 then 9223372036854775807
      else if d < - 9223372036854775808 then - 9223372036854775808
      else d)"

definition time_Since :: "Time \<Rightarrow> Time \<Rightarrow> Duration" where
  "time_Since now t = time_Sub now t"

text \<open>\<^verbatim>\<open>Health()\<close>, called when the clock shows \<open>now\<close>.\<close>

definition Health :: "Consumer \<Rightarrow> Time \<Rightarrow> error option" where
  "Health c now =
     (if time_Since now (lastPoll c) > 30 * Second then Some (ErrorString ''no recent poll'')
      else None)"

section \<open>The trace of calls to the collaborators\<close>

text \<open>
  A line written by \<^verbatim>\<open>log.Printf\<close>: one constructor for each format string of the
  package, with the arguments of the call.
\<close>

datatype logline =
    GroupCreateError string error
  | ReadError string error
  | HandlerError string string error
  | AckError string string error

datatype goroutine =
    ServeHealth Context string
  | ConsumeStream Context string
  | ConsumeLoop Context string int

text \<open>
  The calls a function makes, in the order it makes them. \<open>XReadGroup\<close> carries the
  fields \<^verbatim>\<open>Group, Consumer, Streams, Count, Block\<close> of its arguments; \<open>TracerStart\<close> the
  tracer, the span name and the two attributes; \<open>SetLastPoll\<close> is the assignment to
  \<^verbatim>\<open>c.lastPoll\<close> under its lock; \<open>Go\<close> is a \<^verbatim>\<open>go\<close> statement.
\<close>

datatype event =
    XGroupCreateMkStream Context string string string
  | XReadGroup Context string string "string list" int Duration
  | XAck Context string string string
  | LogPrintf logline
  | Sleep Duration
  | SetLastPoll Time
  | TracerStart tracer string string string
  | SpanEnd
  | CallHandler string XMessage
  | Go goroutine

text \<open>
  The answers of the Redis server that the code looks at: the error of
  \<^verbatim>\<open>XGroupCreateMkStream(stream, group, "$")\<close> and of \<^verbatim>\<open>XAck(stream, group, id)\<close>.
\<close>

record world =
  XGroupCreateMkStream_Err :: "string \<Rightarrow> string \<Rightarrow> error option"
  XAck_Err :: "string \<Rightarrow> string \<Rightarrow> string \<Rightarrow> error option"

section \<open>The message dispatcher\<close>

text \<open>
  \<^verbatim>\<open>processMessage(ctx, stream, msg)\<close> returns nothing; the model returns the trace and
  whether the call panicked. Calling \<^verbatim>\<open>Start\<close> on a nil \<^verbatim>\<open>trace.Tracer\<close> panics; the
  deferred \<^verbatim>\<open>span.End()\<close> is registered only after that call.
\<close>

definition processMessage :: "Consumer \<Rightarrow> world \<Rightarrow> Context \<Rightarrow> string \<Rightarrow> XMessage \<Rightarrow> event list \<times> bool" where
  "processMessage c w ctx stream msg =
     (case Tracer (cfg c) of
        None \<Rightarrow> ([], True)
      | Some tracer \<Rightarrow>
          ([TracerStart tracer ''redis.process_message'' stream (ID msg),
            CallHandler stream msg] @
           (case handler c stream msg of
              Some err \<Rightarrow> [LogPrintf (HandlerError stream (ID msg) err)]
            | None \<Rightarrow>
                if AckOnSuccess (cfg c) then
                  XAck ctx stream (Group (cfg c)) (ID msg) #
                  (case XAck_Err w stream (Group (cfg c)) (ID msg) of
                     Some err \<Rightarrow> [LogPrintf (AckError stream (ID msg) err)]
                   | None \<Rightarrow> [])
                else []) @
           [SpanEnd], False))"

section \<open>The worker loop\<close>

text \<open>\<^verbatim>\<open>fmt.Sprintf("%d", i)\<close>: the decimal digits, after a minus sign when negative.\<close>

definition digit_char :: "nat \<Rightarrow> char" where
  "digit_char d = char_of (48 + d)"

fun fmt_nat :: "nat \<Rightarrow> string" where
  "fmt_nat n = (if n < 10 then [digit_char n] else fmt_nat (n div 10) @ [digit_char (n mod 10)])"

definition fmt_d :: "int \<Rightarrow> string" where
  "fmt_d i = (if i < 0 then CHR ''-'' # fmt_nat (nat (- i)) else fmt_nat (nat i))"

text \<open>The consumer identity of a loop, \<^verbatim>\<open>fmt.Sprintf("%s-%d", c.cfg.ConsumerName, id)\<close>.\<close>

definition consumerName :: "Consumer \<Rightarrow> int \<Rightarrow> string" where
  "consumerName c id' = ConsumerName (cfg c) @ ''-'' @ fmt_d id'"

text \<open>
  The two nested \<^verbatim>\<open>range\<close> loops of \<^verbatim>\<open>consumeLoop\<close>. Each message is passed with the
  loop's own \<open>stream\<close>, not with \<^verbatim>\<open>s.Stream\<close>. A panic ends the loops.
\<close>

fun range_Messages :: "Consumer \<Rightarrow> world \<Rightarrow> Context \<Rightarrow> string \<Rightarrow> XMessage list \<Rightarrow> event list \<times> bool" where
  "range_Messages c w ctx stream [] = ([], False)"
| "range_Messages c w ctx stream (msg # msgs) =
     (case processMessage c w ctx stream msg of
        (ev, True) \<Rightarrow> (ev, True)
      | (ev, False) \<Rightarrow>
          (case range_Messages c w ctx stream msgs of (ev', p) \<Rightarrow> (ev @ ev', p)))"

fun range_streams :: "Consumer \<Rightarrow> world \<Rightarrow> Context \<Rightarrow> string \<Rightarrow> XStream list \<Rightarrow> event list \<times> bool" where
  "range_streams c w ctx stream [] = ([], False)"
| "range_streams c w ctx stream (s # ss) =
     (case range_Messages c w ctx stream (Messages s) of
        (ev, True) \<Rightarrow> (ev, True)
      | (ev, False) \<Rightarrow>
          (case range_streams c w ctx stream ss of (ev', p) \<Rightarrow> (ev @ ev', p)))"

text \<open>
  What one iteration of the \<^verbatim>\<open>for\<close> loop meets: the context is done, or it is not and
  \<^verbatim>\<open>XReadGroup(...).Result()\<close> returns the two values given, \<^verbatim>\<open>time.Now()\<close> returning
  the third if line 156 is reached.
\<close>

datatype step = CtxDone | Poll "XStream list" "error option" Time

datatype status = Running | Stopped | Panicked

text \<open>
  \<^verbatim>\<open>consumeLoop(ctx, stream, id)\<close> against a script of iterations. The loop has no
  exit but the \<^verbatim>\<open>return\<close> under \<^verbatim>\<open>ctx.Done()\<close>: when the script ends the loop is still
  \<open>Running\<close>. The deferred \<^verbatim>\<open>wg.Done()\<close> runs on return and on panic.
\<close>

fun consumeLoop :: "Consumer \<Rightarrow> world \<Rightarrow> Context \<Rightarrow> string \<Rightarrow> int \<Rightarrow> step list \<Rightarrow> Consumer \<times> event list \<times> status" where
  "consumeLoop c w ctx stream id' [] = (c, [], Running)"
| "consumeLoop c w ctx stream id' (CtxDone # script) = (c\<lparr>wg := wg c - 1\<rparr>, [], Stopped)"
| "consumeLoop c w ctx stream id' (Poll streams err now # script) =
     (let call = XReadGroup ctx (Group (cfg c)) (consumerName c id') [stream, ''>'']
                   (ReadCount (cfg c)) (BlockTime (cfg c))
      in if err = Some redis_Nil then
           (case consumeLoop c w ctx stream id' script of
              (c', ev, st) \<Rightarrow> (c', call # ev, st))
         else
           (case err of
              Some e \<Rightarrow>
                (case consumeLoop c w ctx stream id' script of
                   (c', ev, st) \<Rightarrow>
                     (c', call # LogPrintf (ReadError stream e) # Sleep Second # ev, st))
            | None \<Rightarrow>
                (let c1 = c\<lparr>lastPoll := now\<rparr> in
                 case range_streams c1 w ctx stream streams of
                   (ev, True) \<Rightarrow> (c1\<lparr>wg := wg c1 - 1\<rparr>, call # SetLastPoll now # ev, Panicked)
                 | (ev, False) \<Rightarrow>
                     (case consumeLoop c1 w ctx stream id' script of
                        (c', ev', st) \<Rightarrow> (c', call # SetLastPoll now # ev @ ev', st)))))"

section \<open>The stream supervisor and the engine\<close>

text \<open>
  \<^verbatim>\<open>consumeStream(ctx, stream)\<close>: the \<^verbatim>\<open>for\<close> loop runs for \<open>i = 0, ..., Concurrency - 1\<close>,
  and not at all when \<open>Concurrency \<le> 0\<close>; each round adds one to the wait group, and
  the deferred \<^verbatim>\<open>wg.Done()\<close> takes one off.
\<close>

definition consumeStream :: "Consumer \<Rightarrow> Context \<Rightarrow> string \<Rightarrow> Consumer \<times> event list" where
  "consumeStream c ctx stream =
     (let gs = map (\<lambda>i. Go (ConsumeLoop ctx stream (int i))) [0 ..< nat (Concurrency (cfg c))]
      in (c\<lparr>wg := wg c + int (length gs) - 1\<rparr>, gs))"

text \<open>The body of the first loop of \<^verbatim>\<open>Start\<close> (lines 99 to 103).\<close>

definition createGroup :: "Consumer \<Rightarrow> world \<Rightarrow> Context \<Rightarrow> string \<Rightarrow> event list" where
  "createGroup c w ctx stream =
     XGroupCreateMkStream ctx stream (Group (cfg c)) ''$'' #
     (case XGroupCreateMkStream_Err w stream (Group (cfg c)) of
        None \<Rightarrow> []
      | Some err \<Rightarrow>
          if Error err \<noteq> ''BUSYGROUP Consumer Group name already exists''
          then [LogPrintf (GroupCreateError stream err)] else [])"

text \<open>\<^verbatim>\<open>Start(ctx)\<close>: the new state, the trace and the error returned.\<close>

definition Start :: "Consumer \<Rightarrow> world \<Rightarrow> Context \<Rightarrow> Consumer \<times> event list \<times> error option" where
  "Start c w ctx0 =
     (if started c then (c, [], Some (ErrorString ''consumer already started''))
      else
        let ctx = WithCancel ctx0;
            c1 = c\<lparr>started := True, cancel := Some ctx\<rparr>;
            groups = concat (map (createGroup c1 w ctx) (Streams (cfg c1)));
            health = (if HealthAddr (cfg c1) \<noteq> ''''
                      then [Go (ServeHealth ctx (HealthAddr (cfg c1)))] else []);
            workers = map (\<lambda>stream. Go (ConsumeStream ctx stream)) (Streams (cfg c1))
        in (c1\<lparr>wg := wg c1 + int (length workers)\<rparr>, groups @ health @ workers, None))"

section \<open>Reading traces\<close>

fun is_XAck :: "event \<Rightarrow> bool" where
  "is_XAck (XAck ctx stream grp msgid) = True"
| "is_XAck _ = False"

fun is_XReadGroup :: "event \<Rightarrow> bool" where
  "is_XReadGroup (XReadGroup ctx grp consumer streams n block) = True"
| "is_XReadGroup _ = False"

fun is_CallHandler :: "event \<Rightarrow> bool" where
  "is_CallHandler (CallHandler stream msg) = True"
| "is_CallHandler _ = False"

fun is_LogPrintf :: "event \<Rightarrow> bool" where
  "is_LogPrintf (LogPrintf l) = True"
| "is_LogPrintf _ = False"

fun is_SetLastPoll :: "event \<Rightarrow> bool" where
  "is_SetLastPoll (SetLastPoll t) = True"
| "is_SetLastPoll _ = False"

fun is_XGroupCreateMkStream :: "event \<Rightarrow> bool" where
  "is_XGroupCreateMkStream (XGroupCreateMkStream ctx stream grp start) = True"
| "is_XGroupCreateMkStream _ = False"

text \<open>The consumer identities a trace presents to Redis in its group-reads.\<close>

fun presented :: "event list \<Rightarrow> string list" where
  "presented [] = []"
| "presented (XReadGroup ctx grp consumer streams n block # evs) = consumer # presented evs"
| "presented (ev # evs) = presented evs"

fun is_Go :: "event \<Rightarrow> bool" where
  "is_Go (Go g) = True"
| "is_Go _ = False"

text \<open>The goroutines a trace starts, in order.\<close>

fun spawned :: "event list \<Rightarrow> goroutine list" where
  "spawned [] = []"
| "spawned (Go g # evs) = g # spawned evs"
| "spawned (ev # evs) = spawned evs"

text \<open>The entries a read delivers: those of every stream-result, in order.\<close>

definition delivered :: "XStream list \<Rightarrow> XMessage list" where
  "delivered streams = concat (map Messages streams)"

section \<open>All worker loops of an engine\<close>

text \<open>
  The worker loops that exist once \<^verbatim>\<open>Start\<close> has run and every \<^verbatim>\<open>consumeStream\<close> goroutine
  it started has run: each as the stream it reads and the \<open>id\<close> it was given.
\<close>

fun loops_of :: "Consumer \<Rightarrow> goroutine \<Rightarrow> goroutine list" where
  "loops_of c (ConsumeStream ctx stream) = spawned (snd (consumeStream c ctx stream))"
| "loops_of c g = []"

definition worker_loops :: "Consumer \<Rightarrow> world \<Rightarrow> Context \<Rightarrow> goroutine list" where
  "worker_loops c w ctx0 =
     (case Start c w ctx0 of (c', evs, err) \<Rightarrow> concat (map (loops_of c') (spawned evs)))"

text \<open>
  What a worker loop presents to Redis: the key it reads and the \<^verbatim>\<open>Consumer\<close> field of
  its \<^verbatim>\<open>XReadGroupArgs\<close>.
\<close>

fun loop_stream :: "goroutine \<Rightarrow> string" where
  "loop_stream (ConsumeLoop ctx stream id') = stream"
| "loop_stream (ConsumeStream ctx stream) = stream"
| "loop_stream (ServeHealth ctx addr) = ''''"

fun loop_identity :: "Consumer \<Rightarrow> goroutine \<Rightarrow> string" where
  "loop_identity c (ConsumeLoop ctx stream id') = consumerName c id'"
| "loop_identity c g = ''''"

section \<open>Several workers on the shared liveness timestamp\<close>

text \<open>
  Worker loops run in parallel and share \<^verbatim>\<open>lastPoll\<close>, written under its lock. A
  schedule lists, in the order in which they happen, stretches of iterations of single
  workers: the stream, the worker's \<open>id\<close> and what its iterations meet.
\<close>

fun run_workers :: "Consumer \<Rightarrow> world \<Rightarrow> Context \<Rightarrow> (string \<times> int \<times> step list) list \<Rightarrow> Consumer" where
  "run_workers c w ctx [] = c"
| "run_workers c w ctx ((stream, id', script) # sched) =
     run_workers (fst (consumeLoop c w ctx stream id' script)) w ctx sched"

text \<open>The reads a script performs: those before the context is seen done.\<close>

fun performed :: "step list \<Rightarrow> step list" where
  "performed [] = []"
| "performed (CtxDone # script) = []"
| "performed (Poll streams err now # script) = Poll streams err now # performed script"

definition reads_of :: "(string \<times> int \<times> step list) list \<Rightarrow> step list" where
  "reads_of sched = concat (map (\<lambda>(stream, id', script). performed script) sched)"

text \<open>A read that returned without error; one that, besides, delivered an entry.\<close>

fun successful :: "step \<Rightarrow> bool" where
  "successful (Poll streams None now) = True"
| "successful _ = False"

fun successful_nonempty :: "step \<Rightarrow> bool" where
  "successful_nonempty (Poll streams None now) = (delivered streams \<noteq> [])"
| "successful_nonempty _ = False"

fun step_time :: "step \<Rightarrow> Time" where
  "step_time (Poll streams err now) = now"
| "step_time CtxDone = 0"

text \<open>
  The time of the last read among \<open>reads\<close> that satisfies \<open>P\<close>, and \<open>t0\<close> when there is
  none.
\<close>

definition last_read_time :: "(step \<Rightarrow> bool) \<Rightarrow> Time \<Rightarrow> step list \<Rightarrow> Time" where
  "last_read_time P t0 reads = foldl (\<lambda>t r. if P r then step_time r else t) t0 reads"

text \<open>The configuration and the handler of \<^verbatim>\<open>cmd/consumer/main.go\<close>.\<close>

definition main_cfg :: ConsumerConfig where
  "main_cfg = \<lparr>Addr = ''localhost:6380'', Password = ''redis123'', User = '''', DB = 0,
     Streams = [''events'', ''logs'', ''notifications''], Group = ''workers'',
     ConsumerName = ''c1'', ReadCount = 0, BlockTime = 0, Concurrency = 10,
     HealthAddr = '':8083'', AckOnSuccess = True, Tracer = Some (NamedTracer ''redis-consumer'')\<rparr>"

definition main_handler :: Handler where
  "main_handler stream msg = None"

section \<open>Failed reads, in the words of the specification\<close>

text \<open>
  What the specification says an iteration does whose read fails: on "no data within the
  block timeout" the read and nothing else; on any other error the read, one log line
  and a sleep of one second.
\<close>

fun read_failed :: "step \<Rightarrow> bool" where
  "read_failed (Poll streams (Some e) now) = True"
| "read_failed _ = False"

fun spec_failed_read_trace :: "Consumer \<Rightarrow> Context \<Rightarrow> string \<Rightarrow> int \<Rightarrow> step \<Rightarrow> event list" where
  "spec_failed_read_trace c ctx stream id' (Poll streams (Some e) now) =
     XReadGroup ctx (Group (cfg c)) (consumerName c id') [stream, ''>'']
       (ReadCount (cfg c)) (BlockTime (cfg c)) #
     (if e = redis_Nil then [] else [LogPrintf (ReadError stream e), Sleep Second])"
| "spec_failed_read_trace c ctx stream id' st = []"

text \<open>
  A schedule of two workers: worker 0 of \<open>events\<close> reads one entry at second 1, worker 0
  of \<open>logs\<close> gets, at second 20, a reply without error whose stream-result holds no entry.
\<close>

definition schedule_with_empty_read :: "(string \<times> int \<times> step list) list" where
  "schedule_with_empty_read =
     [(''events'', 0,
       [Poll [\<lparr>Stream = ''events'', Messages = [\<lparr>ID = ''1-0'', Values = []\<rparr>]\<rparr>] None (1 * Second)]),
      (''logs'', 0,
       [Poll [\<lparr>Stream = ''logs'', Messages = []\<rparr>] None (20 * Second)])]"

text \<open>A server on which every call succeeds, and one on which every call fails.\<close>

definition world_ok :: world where
  "world_ok = \<lparr>XGroupCreateMkStream_Err = (\<lambda>stream grp. None),
                XAck_Err = (\<lambda>stream grp msgid. None)\<rparr>"

definition world_failing :: world where
  "world_failing =
     \<lparr>XGroupCreateMkStream_Err = (\<lambda>stream grp.
        if stream = ''events''
        then Some (RedisError ''BUSYGROUP Consumer Group name already exists'')
        else Some (RedisError ''NOAUTH Authentication required.'')),
      XAck_Err = (\<lambda>stream grp msgid. Some (RedisError ''NOAUTH Authentication required.''))\<rparr>"

declare fmt_nat.simps [simp del]

section \<open>Construction: validation and defaults\<close>

lemma NewConsumer_main:
  "\<exists>c. NewConsumer main_cfg (Some main_handler) t0 = Inr c \<and>
       cfg c = main_cfg\<lparr>ReadCount := 10, BlockTime := 5 * Second\<rparr> \<and>
       handler c = main_handler \<and> wg c = 0 \<and> cancel c = None \<and> \<not> started c \<and> lastPoll c = t0"
  by (simp add: NewConsumer_def main_cfg_def Let_def)

lemma time_Since_gt_30s: "(time_Since now t > 30 * Second) = (now - t > 30 * Second)"
  by (simp add: time_Since_def time_Sub_def Second_def Let_def)

lemma Health_eq:
  "Health c now =
     (if now - lastPoll c > 30000000000 then Some (ErrorString ''no recent poll'') else None)"
  by (simp add: Health_def time_Since_def time_Sub_def Second_def Let_def)

text \<open>
  C7. \<^verbatim>\<open>NewConsumer\<close> returns an error, and no consumer, exactly when the handler is nil,
  the list of streams is empty or the group name is empty; on every other input it
  returns a consumer and no error. It is a total function of its arguments: it answers
  at once and calls nothing that could be retried.
\<close>

theorem NewConsumer_fails_iff:
  "((\<exists>e. NewConsumer cfg0 h now = Inl e) = (h = None \<or> Streams cfg0 = [] \<or> Group cfg0 = '''')) \<and>
   ((\<exists>c. NewConsumer cfg0 h now = Inr c) = (\<not> (h = None \<or> Streams cfg0 = [] \<or> Group cfg0 = '''')))"
  by (auto simp: NewConsumer_def Let_def split: option.splits)

theorem NewConsumer_fails_iff_witness:
  "(\<exists>e. NewConsumer (main_cfg\<lparr>Group := ''''\<rparr>) (Some main_handler) 0 = Inl e) \<and>
   (\<exists>c. NewConsumer main_cfg (Some main_handler) 0 = Inr c)"
  using NewConsumer_fails_iff [of "main_cfg\<lparr>Group := ''''\<rparr>" "Some main_handler" 0]
    NewConsumer_fails_iff [of main_cfg "Some main_handler" 0]
  by (simp add: main_cfg_def)

text \<open>
  C5, as the code has it. In the consumer that \<^verbatim>\<open>NewConsumer\<close> returns, a concurrency
  that was zero or negative is 1, a batch size that was zero is 10, a block duration
  that was zero is 5 seconds, and a nil tracer is the default tracer; every other value,
  a negative batch size or block duration among them, is kept as it was given.
\<close>

theorem NewConsumer_defaults:
  assumes "NewConsumer cfg0 h now = Inr c"
  shows "Concurrency (cfg c) = (if Concurrency cfg0 \<le> 0 then 1 else Concurrency cfg0) \<and>
         ReadCount (cfg c) = (if ReadCount cfg0 = 0 then 10 else ReadCount cfg0) \<and>
         BlockTime (cfg c) = (if BlockTime cfg0 = 0 then 5 * Second else BlockTime cfg0) \<and>
         Tracer (cfg c) =
           (if Tracer cfg0 = None then Some (otel_Tracer ''redisconsumer'') else Tracer cfg0) \<and>
         0 < Concurrency (cfg c)"
  using assms
  by (auto simp: NewConsumer_def Let_def split: option.splits if_splits)

theorem NewConsumer_defaults_witness:
  "\<exists>c. NewConsumer (main_cfg\<lparr>Concurrency := - 3, Tracer := None\<rparr>) (Some main_handler) 0 = Inr c \<and>
       Concurrency (cfg c) = 1 \<and> ReadCount (cfg c) = 10 \<and> BlockTime (cfg c) = 5000000000 \<and>
       Tracer (cfg c) = Some (NamedTracer ''redisconsumer'')"
proof -
  obtain c where c: "NewConsumer (main_cfg\<lparr>Concurrency := - 3, Tracer := None\<rparr>) (Some main_handler) 0 = Inr c"
    by (simp add: NewConsumer_def main_cfg_def Let_def)
  from NewConsumer_defaults [OF c] have
    "Concurrency (cfg c) = 1 \<and> ReadCount (cfg c) = 10 \<and> BlockTime (cfg c) = 5000000000 \<and>
     Tracer (cfg c) = Some (NamedTracer ''redisconsumer'')"
    by (simp add: main_cfg_def Second_def otel_Tracer_def)
  with c show ?thesis by blast
qed

text \<open>
  C5 as stated fails: a batch size and a block duration of \<open>-1\<close> are non-positive, and
  the consumer is built with both unchanged.
\<close>

theorem NewConsumer_defaults_counterexample:
  "ReadCount (main_cfg\<lparr>ReadCount := - 1, BlockTime := - 1\<rparr>) \<le> 0 \<and>
   BlockTime (main_cfg\<lparr>ReadCount := - 1, BlockTime := - 1\<rparr>) \<le> 0 \<and>
   (case NewConsumer (main_cfg\<lparr>ReadCount := - 1, BlockTime := - 1\<rparr>) (Some main_handler) 0 of
      Inl e \<Rightarrow> False
    | Inr c \<Rightarrow> ReadCount (cfg c) = - 1 \<and> ReadCount (cfg c) \<noteq> 10 \<and>
               BlockTime (cfg c) = - 1 \<and> BlockTime (cfg c) \<noteq> 5 * Second)"
  by (simp add: NewConsumer_def main_cfg_def Let_def Second_def)

section \<open>Liveness after construction\<close>

text \<open>
  C10. The consumer that \<^verbatim>\<open>NewConsumer\<close> returns at time \<open>t0\<close> is not started and has
  its liveness timestamp set to \<open>t0\<close>; \<^verbatim>\<open>Health()\<close> on it returns nil as long as no more
  than 30 seconds have passed since \<open>t0\<close>, and the error after that.
\<close>

theorem Health_after_NewConsumer:
  assumes "NewConsumer cfg0 h t0 = Inr c"
  shows "\<not> started c \<and> lastPoll c = t0 \<and>
         Health c now =
           (if now - t0 \<le> 30 * Second then None else Some (ErrorString ''no recent poll''))"
proof -
  from assms have "lastPoll c = t0" and "\<not> started c"
    by (auto simp: NewConsumer_def Let_def split: option.splits if_splits)
  then show ?thesis
    by (simp add: Health_def time_Since_gt_30s)
qed

theorem Health_after_NewConsumer_witness:
  "\<exists>c. NewConsumer main_cfg (Some main_handler) 100 = Inr c \<and>
       Health c 100 = None \<and> Health c (100 + 30 * Second) = None \<and>
       Health c (101 + 30 * Second) = Some (ErrorString ''no recent poll'')"
proof -
  obtain c where c: "NewConsumer main_cfg (Some main_handler) 100 = Inr c"
    by (simp add: NewConsumer_def main_cfg_def Let_def)
  from Health_after_NewConsumer [OF c, of 100] Health_after_NewConsumer [OF c, of "100 + 30 * Second"]
    Health_after_NewConsumer [OF c, of "101 + 30 * Second"]
  have "Health c 100 = None \<and> Health c (100 + 30 * Second) = None \<and>
       Health c (101 + 30 * Second) = Some (ErrorString ''no recent poll'')"
    by (simp add: Second_def)
  with c show ?thesis by blast
qed

section \<open>The message dispatcher: acknowledgement\<close>

lemma processMessage_no_panic:
  "Tracer (cfg c) = Some tr \<Longrightarrow> snd (processMessage c w ctx stream msg) = False"
  by (simp add: processMessage_def)

text \<open>
  C1. For a delivered entry (on a consumer with a tracer, as \<^verbatim>\<open>NewConsumer\<close> builds it):
  if acknowledge-on-success is enabled and the handler returns nil, the trace of
  \<^verbatim>\<open>processMessage\<close> holds exactly one \<^verbatim>\<open>XAck\<close> call, for this entry; if the handler
  returns an error it holds none. When the \<^verbatim>\<open>XAck\<close> call fails, the failure is logged,
  no second \<^verbatim>\<open>XAck\<close> follows, and the caller is not told: the call ends normally and the
  loop over the batch goes on to the next entry.
\<close>

theorem processMessage_acknowledges:
  assumes "Tracer (cfg c) = Some tr"
  shows "(handler c stream msg = None \<and> AckOnSuccess (cfg c) \<longrightarrow>
            filter is_XAck (fst (processMessage c w ctx stream msg)) =
              [XAck ctx stream (Group (cfg c)) (ID msg)]) \<and>
         (handler c stream msg \<noteq> None \<longrightarrow>
            filter is_XAck (fst (processMessage c w ctx stream msg)) = []) \<and>
         (handler c stream msg = None \<and> AckOnSuccess (cfg c) \<and>
          XAck_Err w stream (Group (cfg c)) (ID msg) = Some e \<longrightarrow>
            processMessage c w ctx stream msg =
              ([TracerStart tr ''redis.process_message'' stream (ID msg), CallHandler stream msg,
                XAck ctx stream (Group (cfg c)) (ID msg),
                LogPrintf (AckError stream (ID msg) e), SpanEnd], False)) \<and>
         range_Messages c w ctx stream (msg # msgs) =
           (fst (processMessage c w ctx stream msg) @ fst (range_Messages c w ctx stream msgs),
            snd (range_Messages c w ctx stream msgs))"
proof -
  have np: "snd (processMessage c w ctx stream msg) = False"
    using assms by (rule processMessage_no_panic)
  have a: "handler c stream msg = None \<and> AckOnSuccess (cfg c) \<longrightarrow>
            filter is_XAck (fst (processMessage c w ctx stream msg)) =
              [XAck ctx stream (Group (cfg c)) (ID msg)]"
    using assms by (simp add: processMessage_def split: option.splits)
  have b: "handler c stream msg \<noteq> None \<longrightarrow>
            filter is_XAck (fst (processMessage c w ctx stream msg)) = []"
    using assms by (auto simp: processMessage_def)
  have d: "handler c stream msg = None \<and> AckOnSuccess (cfg c) \<and>
          XAck_Err w stream (Group (cfg c)) (ID msg) = Some e \<longrightarrow>
            processMessage c w ctx stream msg =
              ([TracerStart tr ''redis.process_message'' stream (ID msg), CallHandler stream msg,
                XAck ctx stream (Group (cfg c)) (ID msg),
                LogPrintf (AckError stream (ID msg) e), SpanEnd], False)"
    using assms by (simp add: processMessage_def)
  have r: "range_Messages c w ctx stream (msg # msgs) =
           (fst (processMessage c w ctx stream msg) @ fst (range_Messages c w ctx stream msgs),
            snd (range_Messages c w ctx stream msgs))"
    using np by (cases "processMessage c w ctx stream msg") (simp split: prod.splits)
  from a b d r show ?thesis by blast
qed

theorem processMessage_acknowledges_witness:
  "(case NewConsumer main_cfg (Some main_handler) 0 of
      Inl err \<Rightarrow> False
    | Inr c \<Rightarrow>
        filter is_XAck (fst (processMessage c world_ok Background ''events''
                               \<lparr>ID = ''1-0'', Values = []\<rparr>)) =
          [XAck Background ''events'' ''workers'' ''1-0''] \<and>
        filter is_XAck (fst (processMessage (c\<lparr>handler := (\<lambda>stream msg. Some (ErrorString ''boom''))\<rparr>)
                               world_ok Background ''events'' \<lparr>ID = ''1-0'', Values = []\<rparr>)) = [] \<and>
        processMessage c world_failing Background ''events'' \<lparr>ID = ''1-0'', Values = []\<rparr> =
          ([TracerStart (NamedTracer ''redis-consumer'') ''redis.process_message'' ''events'' ''1-0'',
            CallHandler ''events'' \<lparr>ID = ''1-0'', Values = []\<rparr>,
            XAck Background ''events'' ''workers'' ''1-0'',
            LogPrintf (AckError ''events'' ''1-0'' (RedisError ''NOAUTH Authentication required.'')),
            SpanEnd], False))"
proof -
  obtain c where c: "NewConsumer main_cfg (Some main_handler) 0 = Inr c"
    by (simp add: NewConsumer_def main_cfg_def Let_def)
  then have f: "Tracer (cfg c) = Some (NamedTracer ''redis-consumer'')" "AckOnSuccess (cfg c)"
    "Group (cfg c) = ''workers''" "handler c = main_handler"
    by (auto simp: NewConsumer_def main_cfg_def Let_def)
  let ?m = "\<lparr>ID = ''1-0'', Values = []\<rparr>"
  let ?c' = "c\<lparr>handler := (\<lambda>stream msg. Some (ErrorString ''boom''))\<rparr>"
  have f': "Tracer (cfg ?c') = Some (NamedTracer ''redis-consumer'')"
    using f by simp
  from processMessage_acknowledges [OF f(1), of "''events''" ?m world_ok Background]
    processMessage_acknowledges [OF f', of "''events''" ?m world_ok Background]
    processMessage_acknowledges [OF f(1), of "''events''" ?m world_failing Background
      "RedisError ''NOAUTH Authentication required.''"]
  show ?thesis
    using f by (simp add: c main_handler_def world_failing_def)
qed

section \<open>The worker loop\<close>

lemma range_Messages_trace:
  assumes "Tracer (cfg c) = Some tr"
  shows "range_Messages c w ctx stream msgs =
           (concat (map (\<lambda>msg. fst (processMessage c w ctx stream msg)) msgs), False)"
proof (induction msgs)
  case Nil
  show ?case by simp
next
  case (Cons msg msgs)
  have "snd (processMessage c w ctx stream msg) = False"
    using assms by (rule processMessage_no_panic)
  with Cons show ?case
    by (cases "processMessage c w ctx stream msg") simp
qed

lemma range_streams_trace:
  assumes "Tracer (cfg c) = Some tr"
  shows "range_streams c w ctx stream streams =
           (concat (map (\<lambda>msg. fst (processMessage c w ctx stream msg)) (delivered streams)), False)"
proof (induction streams)
  case Nil
  show ?case by (simp add: delivered_def)
next
  case (Cons s ss)
  then show ?case
    by (simp add: delivered_def range_Messages_trace [OF assms])
qed

lemma processMessage_events:
  assumes "Tracer (cfg c) = Some tr"
  shows "filter is_CallHandler (fst (processMessage c w ctx stream msg)) = [CallHandler stream msg]"
    and "filter is_XReadGroup (fst (processMessage c w ctx stream msg)) = []"
    and "filter is_SetLastPoll (fst (processMessage c w ctx stream msg)) = []"
  using assms by (simp_all add: processMessage_def split: option.splits)

lemma dispatch_events:
  assumes "Tracer (cfg c) = Some tr"
  shows "filter is_CallHandler (concat (map (\<lambda>msg. fst (processMessage c w ctx stream msg)) msgs)) =
           map (CallHandler stream) msgs"
    and "filter is_XReadGroup (concat (map (\<lambda>msg. fst (processMessage c w ctx stream msg)) msgs)) = []"
    and "filter is_SetLastPoll (concat (map (\<lambda>msg. fst (processMessage c w ctx stream msg)) msgs)) = []"
  by (induction msgs) (simp_all add: processMessage_events [OF assms])

text \<open>
  C2. When a group-read returns without error (on a consumer with a tracer), the
  iteration of \<^verbatim>\<open>consumeLoop\<close> first sets the liveness timestamp to \<open>now\<close>, then calls the
  handler on every entry of every returned stream-result, in the order of the read and
  with nothing else read or set in between, and only then goes on to the next iteration,
  which issues the next read. This holds in particular when the read returned at least
  one entry.
\<close>

theorem consumeLoop_dispatches_batch:
  assumes "Tracer (cfg c) = Some tr"
  shows "consumeLoop c w ctx stream id' (Poll streams None now # script) =
           (case consumeLoop (c\<lparr>lastPoll := now\<rparr>) w ctx stream id' script of
              (c', ev', st) \<Rightarrow>
                (c',
                 XReadGroup ctx (Group (cfg c)) (consumerName c id') [stream, ''>'']
                   (ReadCount (cfg c)) (BlockTime (cfg c)) #
                 SetLastPoll now #
                 fst (range_streams (c\<lparr>lastPoll := now\<rparr>) w ctx stream streams) @ ev',
                 st)) \<and>
         filter is_CallHandler (fst (range_streams (c\<lparr>lastPoll := now\<rparr>) w ctx stream streams)) =
           map (CallHandler stream) (delivered streams) \<and>
         filter is_XReadGroup (fst (range_streams (c\<lparr>lastPoll := now\<rparr>) w ctx stream streams)) = [] \<and>
         filter is_SetLastPoll (fst (range_streams (c\<lparr>lastPoll := now\<rparr>) w ctx stream streams)) = []"
proof -
  let ?c1 = "c\<lparr>lastPoll := now\<rparr>"
  have t: "Tracer (cfg ?c1) = Some tr"
    using assms by simp
  have rs: "range_streams ?c1 w ctx stream streams =
              (concat (map (\<lambda>msg. fst (processMessage ?c1 w ctx stream msg)) (delivered streams)), False)"
    by (rule range_streams_trace [OF t])
  have loop: "consumeLoop c w ctx stream id' (Poll streams None now # script) =
           (case consumeLoop ?c1 w ctx stream id' script of
              (c', ev', st) \<Rightarrow>
                (c',
                 XReadGroup ctx (Group (cfg c)) (consumerName c id') [stream, ''>'']
                   (ReadCount (cfg c)) (BlockTime (cfg c)) #
                 SetLastPoll now # fst (range_streams ?c1 w ctx stream streams) @ ev', st))"
    by (simp add: rs Let_def split: prod.splits)
  show ?thesis
    using loop by (simp add: rs dispatch_events [OF t])
qed

theorem consumeLoop_dispatches_batch_witness:
  "(case NewConsumer main_cfg (Some main_handler) 0 of
      Inl err \<Rightarrow> False
    | Inr c \<Rightarrow>
        filter is_CallHandler
          (fst (range_streams (c\<lparr>lastPoll := 7\<rparr>) world_ok Background ''events''
             [\<lparr>Stream = ''events'',
               Messages = [\<lparr>ID = ''1-0'', Values = []\<rparr>, \<lparr>ID = ''1-1'', Values = []\<rparr>]\<rparr>])) =
          [CallHandler ''events'' \<lparr>ID = ''1-0'', Values = []\<rparr>,
           CallHandler ''events'' \<lparr>ID = ''1-1'', Values = []\<rparr>] \<and>
        fst (consumeLoop c world_ok Background ''events'' 0
          [Poll [\<lparr>Stream = ''events'',
                  Messages = [\<lparr>ID = ''1-0'', Values = []\<rparr>, \<lparr>ID = ''1-1'', Values = []\<rparr>]\<rparr>] None 7,
           CtxDone]) = c\<lparr>lastPoll := 7, wg := - 1\<rparr>)"
proof -
  obtain c where c: "NewConsumer main_cfg (Some main_handler) 0 = Inr c"
    by (simp add: NewConsumer_def main_cfg_def Let_def)
  then have f: "Tracer (cfg c) = Some (NamedTracer ''redis-consumer'')" and g: "wg c = 0"
    by (auto simp: NewConsumer_def main_cfg_def Let_def)
  let ?ss = "[\<lparr>Stream = ''events'',
               Messages = [\<lparr>ID = ''1-0'', Values = []\<rparr>, \<lparr>ID = ''1-1'', Values = []\<rparr>]\<rparr>]"
  from consumeLoop_dispatches_batch [OF f, of world_ok Background "''events''" 0 ?ss 7 "[CtxDone]"]
  show ?thesis
    using g by (simp add: c delivered_def split: prod.splits)
qed

lemma consumeLoop_success:
  assumes "Tracer (cfg c) = Some tr"
  shows "consumeLoop c w ctx stream id' (Poll streams None now # script) =
           (case consumeLoop (c\<lparr>lastPoll := now\<rparr>) w ctx stream id' script of
              (c', ev', st) \<Rightarrow>
                (c',
                 XReadGroup ctx (Group (cfg c)) (consumerName c id') [stream, ''>'']
                   (ReadCount (cfg c)) (BlockTime (cfg c)) #
                 SetLastPoll now #
                 concat (map (\<lambda>msg. fst (processMessage (c\<lparr>lastPoll := now\<rparr>) w ctx stream msg))
                           (delivered streams)) @ ev',
                 st))"
proof -
  have t: "Tracer (cfg (c\<lparr>lastPoll := now\<rparr>)) = Some tr"
    using assms by simp
  show ?thesis
    by (simp add: range_streams_trace [OF t] Let_def split: prod.splits)
qed

lemma consumeLoop_failure:
  "consumeLoop c w ctx stream id' (Poll streams (Some e) now # script) =
     (case consumeLoop c w ctx stream id' script of
        (c', ev, st) \<Rightarrow>
          (c', spec_failed_read_trace c ctx stream id' (Poll streams (Some e) now) @ ev, st))"
  by (simp add: Let_def split: prod.splits)

lemma consumeLoop_cfg: "cfg (fst (consumeLoop c w ctx stream id' script)) = cfg c"
proof (induction script arbitrary: c)
  case Nil
  show ?case by simp
next
  case (Cons st script)
  show ?case
  proof (cases st)
    case CtxDone
    then show ?thesis by simp
  next
    case (Poll streams err now)
    have a: "cfg (fst (consumeLoop c w ctx stream id' script)) = cfg c"
      by (rule Cons.IH)
    have b: "cfg (fst (consumeLoop (c\<lparr>lastPoll := now\<rparr>) w ctx stream id' script)) = cfg c"
      using Cons.IH [of "c\<lparr>lastPoll := now\<rparr>"] by simp
    show ?thesis
    proof (cases err)
      case (Some e)
      with Poll a show ?thesis
        by (cases "consumeLoop c w ctx stream id' script")
          (simp add: consumeLoop_failure del: consumeLoop.simps)
    next
      case None
      with Poll b show ?thesis
        by (cases "consumeLoop (c\<lparr>lastPoll := now\<rparr>) w ctx stream id' script";
            cases "range_streams (c\<lparr>lastPoll := now\<rparr>) w ctx stream streams")
          (auto simp: Let_def split: bool.splits)
    qed
  qed
qed

lemma consumeLoop_reads:
  assumes "Tracer (cfg c) = Some tr"
  shows "length (filter is_XReadGroup (fst (snd (consumeLoop c w ctx stream id' script)))) =
           length (performed script) \<and>
         snd (snd (consumeLoop c w ctx stream id' script)) =
           (if CtxDone \<in> set script then Stopped else Running)"
  using assms
proof (induction script arbitrary: c)
  case Nil
  show ?case by simp
next
  case (Cons st script)
  show ?case
  proof (cases st)
    case CtxDone
    then show ?thesis by simp
  next
    case (Poll streams err now)
    show ?thesis
    proof (cases err)
      case (Some e)
      with Poll Cons.IH [OF Cons.prems] show ?thesis
        by (cases "consumeLoop c w ctx stream id' script")
          (simp add: consumeLoop_failure del: consumeLoop.simps)
    next
      case None
      have t: "Tracer (cfg (c\<lparr>lastPoll := now\<rparr>)) = Some tr"
        using Cons.prems by simp
      from Poll None Cons.IH [OF t] show ?thesis
        by (cases "consumeLoop (c\<lparr>lastPoll := now\<rparr>) w ctx stream id' script")
          (simp add: consumeLoop_success [OF Cons.prems] dispatch_events [OF t]
             del: consumeLoop.simps)
    qed
  qed
qed

lemma consumeLoop_only_failures:
  assumes "\<forall>st \<in> set script. read_failed st"
  shows "consumeLoop c w ctx stream id' script =
           (c, concat (map (spec_failed_read_trace c ctx stream id') script), Running)"
  using assms
proof (induction script)
  case Nil
  show ?case by simp
next
  case (Cons st script)
  from Cons.prems obtain streams e now where st: "st = Poll streams (Some e) now"
    by (cases st rule: read_failed.cases) auto
  from Cons have "consumeLoop c w ctx stream id' script =
           (c, concat (map (spec_failed_read_trace c ctx stream id') script), Running)"
    by simp
  then show ?case
    by (simp add: st consumeLoop_failure del: consumeLoop.simps)
qed

lemma fmt_d_examples: "fmt_d 0 = ''0''" "fmt_d 1 = ''1''" "fmt_d 9 = ''9''" "fmt_d 10 = ''10''"
  by code_simp+

lemma consumerName_main: "ConsumerName (cfg c) = ''c1'' \<Longrightarrow> consumerName c 0 = ''c1-0''"
  by (simp add: consumerName_def fmt_d_examples)

text \<open>
  C4. An iteration of \<^verbatim>\<open>consumeLoop\<close> whose read returns \<^verbatim>\<open>redis.Nil\<close> does nothing but
  the read: no log line, no sleep, no change of the liveness timestamp, and the loop goes
  on at once. An iteration whose read returns any other error logs it, sleeps one second
  and goes on. A run in which every read fails leaves the consumer as it was and the
  loop running, with exactly these calls in its trace; and whatever the reads return,
  the loop issues one read per iteration and stops only when its context is done. The
  function returns no error: nothing reaches the caller of the engine.
\<close>

theorem consumeLoop_read_failures:
  "consumeLoop c w ctx stream id' (Poll streams (Some e) now # script) =
     (case consumeLoop c w ctx stream id' script of
        (c', ev, st) \<Rightarrow>
          (c',
           XReadGroup ctx (Group (cfg c)) (consumerName c id') [stream, ''>'']
             (ReadCount (cfg c)) (BlockTime (cfg c)) #
           (if e = redis_Nil then [] else [LogPrintf (ReadError stream e), Sleep Second]) @ ev,
           st)) \<and>
   ((\<forall>st \<in> set script. read_failed st) \<longrightarrow>
      consumeLoop c w ctx stream id' script =
        (c, concat (map (spec_failed_read_trace c ctx stream id') script), Running)) \<and>
   (Tracer (cfg c) \<noteq> None \<longrightarrow>
      length (filter is_XReadGroup (fst (snd (consumeLoop c w ctx stream id' script)))) =
        length (performed script) \<and>
      snd (snd (consumeLoop c w ctx stream id' script)) =
        (if CtxDone \<in> set script then Stopped else Running))"
proof -
  have a: "consumeLoop c w ctx stream id' (Poll streams (Some e) now # script) =
     (case consumeLoop c w ctx stream id' script of
        (c', ev, st) \<Rightarrow>
          (c',
           XReadGroup ctx (Group (cfg c)) (consumerName c id') [stream, ''>'']
             (ReadCount (cfg c)) (BlockTime (cfg c)) #
           (if e = redis_Nil then [] else [LogPrintf (ReadError stream e), Sleep Second]) @ ev,
           st))"
    by (simp add: consumeLoop_failure del: consumeLoop.simps)
  have b: "(\<forall>st \<in> set script. read_failed st) \<longrightarrow>
      consumeLoop c w ctx stream id' script =
        (c, concat (map (spec_failed_read_trace c ctx stream id') script), Running)"
    using consumeLoop_only_failures by blast
  have d: "Tracer (cfg c) \<noteq> None \<longrightarrow>
      length (filter is_XReadGroup (fst (snd (consumeLoop c w ctx stream id' script)))) =
        length (performed script) \<and>
      snd (snd (consumeLoop c w ctx stream id' script)) =
        (if CtxDone \<in> set script then Stopped else Running)"
    using consumeLoop_reads by blast
  from a b d show ?thesis by blast
qed

theorem consumeLoop_read_failures_witness:
  "(case NewConsumer main_cfg (Some main_handler) 0 of
      Inl err \<Rightarrow> False
    | Inr c \<Rightarrow>
        (\<forall>st \<in> set [Poll [] (Some redis_Nil) 5,
                      Poll [] (Some (RedisError ''NOGROUP No such key'')) 6]. read_failed st) \<and>
        Tracer (cfg c) \<noteq> None \<and>
        consumeLoop c world_ok Background ''events'' 0
          [Poll [] (Some redis_Nil) 5, Poll [] (Some (RedisError ''NOGROUP No such key'')) 6] =
          (c,
           [XReadGroup Background ''workers'' ''c1-0'' [''events'', ''>''] 10 5000000000,
            XReadGroup Background ''workers'' ''c1-0'' [''events'', ''>''] 10 5000000000,
            LogPrintf (ReadError ''events'' (RedisError ''NOGROUP No such key'')),
            Sleep 1000000000],
           Running))"
proof -
  obtain c where c: "NewConsumer main_cfg (Some main_handler) 0 = Inr c"
    by (simp add: NewConsumer_def main_cfg_def Let_def)
  then have f: "Tracer (cfg c) = Some (NamedTracer ''redis-consumer'')"
    "Group (cfg c) = ''workers''" "ConsumerName (cfg c) = ''c1''"
    "ReadCount (cfg c) = 10" "BlockTime (cfg c) = 5000000000"
    by (auto simp: NewConsumer_def main_cfg_def Let_def Second_def)
  let ?script = "[Poll [] (Some redis_Nil) 5, Poll [] (Some (RedisError ''NOGROUP No such key'')) 6]"
  have h: "\<forall>st \<in> set ?script. read_failed st"
    by simp
  from consumeLoop_read_failures [of c world_ok Background "''events''" 0 "[]" redis_Nil 5 ?script]
  have "consumeLoop c world_ok Background ''events'' 0 ?script =
          (c, concat (map (spec_failed_read_trace c Background ''events'' 0) ?script), Running)"
    using h by blast
  then show ?thesis
    using f h by (simp add: c consumerName_main redis_Nil_def Second_def del: consumeLoop.simps)
qed

section \<open>Starting the engine\<close>

lemma spawned_append: "spawned (xs @ ys) = spawned xs @ spawned ys"
  by (induction xs rule: spawned.induct) simp_all

lemma spawned_Go: "spawned (map (\<lambda>x. Go (f x)) xs) = map f xs"
  by (induction xs) simp_all

lemma spawned_createGroup: "spawned (concat (map (createGroup c w ctx) streams)) = []"
  by (induction streams) (simp_all add: spawned_append createGroup_def split: option.splits)

lemma filter_createGroup:
  "filter is_XGroupCreateMkStream (concat (map (createGroup c w ctx) streams)) =
     map (\<lambda>stream. XGroupCreateMkStream ctx stream (Group (cfg c)) ''$'') streams"
  by (induction streams) (simp_all add: createGroup_def split: option.splits)

lemma filter_Go:
  "filter is_XGroupCreateMkStream (map (\<lambda>x. Go (f x)) xs) = []"
  "filter is_LogPrintf (map (\<lambda>x. Go (f x)) xs) = []"
  by (induction xs) simp_all

lemma log_createGroup:
  "filter is_LogPrintf (concat (map (createGroup c w ctx) streams)) =
     concat (map (\<lambda>stream.
       case XGroupCreateMkStream_Err w stream (Group (cfg c)) of
         None \<Rightarrow> []
       | Some e \<Rightarrow>
           if Error e = ''BUSYGROUP Consumer Group name already exists'' then []
           else [LogPrintf (GroupCreateError stream e)]) streams)"
  by (induction streams) (simp_all add: createGroup_def split: option.splits)

text \<open>
  C8. After a \<^verbatim>\<open>Start\<close> that returned nil, the consumer is started and holds the cancel
  function of the derived context; a second \<^verbatim>\<open>Start\<close>, with whatever context and server
  answers, returns the error "consumer already started", starts no goroutine, makes no
  call at all, and leaves the consumer exactly as the first \<^verbatim>\<open>Start\<close> left it.
\<close>

theorem Start_twice:
  assumes "snd (snd (Start c w ctx)) = None"
  shows "started (fst (Start c w ctx)) \<and>
         cancel (fst (Start c w ctx)) = Some (WithCancel ctx) \<and>
         Start (fst (Start c w ctx)) w' ctx' =
           (fst (Start c w ctx), [], Some (ErrorString ''consumer already started'')) \<and>
         spawned (fst (snd (Start (fst (Start c w ctx)) w' ctx'))) = []"
proof -
  from assms have ns: "\<not> started c"
    by (auto simp: Start_def)
  then have s: "started (fst (Start c w ctx))"
    and k: "cancel (fst (Start c w ctx)) = Some (WithCancel ctx)"
    by (simp_all add: Start_def Let_def)
  from s have "Start (fst (Start c w ctx)) w' ctx' =
           (fst (Start c w ctx), [], Some (ErrorString ''consumer already started''))"
    by (simp add: Start_def [of "fst (Start c w ctx)"])
  with s k show ?thesis by simp
qed

theorem Start_twice_witness:
  "(case NewConsumer main_cfg (Some main_handler) 0 of
      Inl err \<Rightarrow> False
    | Inr c \<Rightarrow>
        snd (snd (Start c world_ok Background)) = None \<and>
        started (fst (Start c world_ok Background)) \<and>
        Start (fst (Start c world_ok Background)) world_failing (WithCancel Background) =
          (fst (Start c world_ok Background), [], Some (ErrorString ''consumer already started'')))"
proof -
  from NewConsumer_main [of 0] obtain c
    where c: "NewConsumer main_cfg (Some main_handler) 0 = Inr c" and "\<not> started c"
    by blast
  then have h: "snd (snd (Start c world_ok Background)) = None"
    by (simp add: Start_def Let_def)
  from Start_twice [OF h, of world_failing "WithCancel Background"] h show ?thesis
    by (simp add: c)
qed

text \<open>
  C9. \<^verbatim>\<open>Start\<close> on a consumer not yet started tries to create the group on every
  configured stream, in order, whatever the earlier attempts returned. The log holds
  one line for every stream whose attempt failed with a message other than
  "BUSYGROUP Consumer Group name already exists", and none for a stream whose attempt
  succeeded or failed with that message. After that a supervisor is started for every
  stream (after the health server, when one is configured), and \<^verbatim>\<open>Start\<close> returns nil.
\<close>

theorem Start_group_create_failures:
  assumes "\<not> started c"
  shows "snd (snd (Start c w ctx)) = None \<and>
         filter is_XGroupCreateMkStream (fst (snd (Start c w ctx))) =
           map (\<lambda>stream. XGroupCreateMkStream (WithCancel ctx) stream (Group (cfg c)) ''$'')
             (Streams (cfg c)) \<and>
         filter is_LogPrintf (fst (snd (Start c w ctx))) =
           concat (map (\<lambda>stream.
             case XGroupCreateMkStream_Err w stream (Group (cfg c)) of
               None \<Rightarrow> []
             | Some e \<Rightarrow>
                 if Error e = ''BUSYGROUP Consumer Group name already exists'' then []
                 else [LogPrintf (GroupCreateError stream e)]) (Streams (cfg c))) \<and>
         spawned (fst (snd (Start c w ctx))) =
           (if HealthAddr (cfg c) \<noteq> '''' then [ServeHealth (WithCancel ctx) (HealthAddr (cfg c))]
            else []) @
           map (ConsumeStream (WithCancel ctx)) (Streams (cfg c))"
proof -
  let ?c1 = "c\<lparr>started := True, cancel := Some (WithCancel ctx)\<rparr>"
  have g: "Group (cfg ?c1) = Group (cfg c)"
    by simp
  have a: "snd (snd (Start c w ctx)) = None"
    using assms by (simp add: Start_def Let_def)
  have b: "filter is_XGroupCreateMkStream (fst (snd (Start c w ctx))) =
           map (\<lambda>stream. XGroupCreateMkStream (WithCancel ctx) stream (Group (cfg c)) ''$'')
             (Streams (cfg c))"
    using assms by (simp add: Start_def Let_def filter_createGroup filter_Go)
  have d: "filter is_LogPrintf (fst (snd (Start c w ctx))) =
           concat (map (\<lambda>stream.
             case XGroupCreateMkStream_Err w stream (Group (cfg c)) of
               None \<Rightarrow> []
             | Some e \<Rightarrow>
                 if Error e = ''BUSYGROUP Consumer Group name already exists'' then []
                 else [LogPrintf (GroupCreateError stream e)]) (Streams (cfg c)))"
    using assms by (simp add: Start_def Let_def log_createGroup filter_Go)
  have e: "spawned (fst (snd (Start c w ctx))) =
           (if HealthAddr (cfg c) \<noteq> '''' then [ServeHealth (WithCancel ctx) (HealthAddr (cfg c))]
            else []) @
           map (ConsumeStream (WithCancel ctx)) (Streams (cfg c))"
    using assms by (simp add: Start_def Let_def spawned_append spawned_createGroup spawned_Go)
  from a b d e show ?thesis by blast
qed

theorem Start_group_create_failures_witness:
  "(case NewConsumer main_cfg (Some main_handler) 0 of
      Inl err \<Rightarrow> False
    | Inr c \<Rightarrow>
        \<not> started c \<and>
        snd (snd (Start c world_failing Background)) = None \<and>
        filter is_LogPrintf (fst (snd (Start c world_failing Background))) =
          [LogPrintf (GroupCreateError ''logs'' (RedisError ''NOAUTH Authentication required.'')),
           LogPrintf (GroupCreateError ''notifications''
                        (RedisError ''NOAUTH Authentication required.''))] \<and>
        spawned (fst (snd (Start c world_failing Background))) =
          [ServeHealth (WithCancel Background) '':8083'',
           ConsumeStream (WithCancel Background) ''events'',
           ConsumeStream (WithCancel Background) ''logs'',
           ConsumeStream (WithCancel Background) ''notifications''])"
proof -
  from NewConsumer_main [of 0] obtain c
    where c: "NewConsumer main_cfg (Some main_handler) 0 = Inr c"
      and m: "cfg c = main_cfg\<lparr>ReadCount := 10, BlockTime := 5 * Second\<rparr>" "\<not> started c"
    by blast
  then have f: "\<not> started c" "Streams (cfg c) = [''events'', ''logs'', ''notifications'']"
    "HealthAddr (cfg c) = '':8083''" "Group (cfg c) = ''workers''"
    by (simp_all add: main_cfg_def)
  from Start_group_create_failures [OF f(1), of world_failing Background] f show ?thesis
    by (simp add: c world_failing_def)
qed

section \<open>Consumer identities\<close>

lemma fmt_nat_nonempty: "fmt_nat n \<noteq> []"
  by (subst fmt_nat.simps) simp

lemma digit_char_inj:
  assumes "a < 10" and "b < 10" and "digit_char a = digit_char b"
  shows "a = b"
proof -
  from assms(3) have "of_char (digit_char a) = (of_char (digit_char b) :: nat)"
    by simp
  with assms(1,2) show ?thesis
    by (simp add: digit_char_def)
qed

lemma fmt_nat_inj: "fmt_nat m = fmt_nat n \<Longrightarrow> m = n"
proof (induction m arbitrary: n rule: fmt_nat.induct)
  case (1 m)
  show ?case
  proof (cases "m < 10")
    case mlt: True
    show ?thesis
    proof (cases "n < 10")
      case True
      with mlt "1.prems" show ?thesis
        by (subst (asm) fmt_nat.simps, subst (asm) (2) fmt_nat.simps) (simp add: digit_char_inj)
    next
      case False
      with mlt "1.prems" fmt_nat_nonempty [of "n div 10"] show ?thesis
        by (subst (asm) fmt_nat.simps, subst (asm) (2) fmt_nat.simps)
          (cases "fmt_nat (n div 10)", auto)
    qed
  next
    case mge: False
    show ?thesis
    proof (cases "n < 10")
      case True
      with mge "1.prems" fmt_nat_nonempty [of "m div 10"] show ?thesis
        by (subst (asm) fmt_nat.simps, subst (asm) (2) fmt_nat.simps)
          (cases "fmt_nat (m div 10)", auto)
    next
      case False
      with mge "1.prems" have e: "fmt_nat (m div 10) = fmt_nat (n div 10)"
        and d: "digit_char (m mod 10) = digit_char (n mod 10)"
        by (subst (asm) fmt_nat.simps, subst (asm) (2) fmt_nat.simps, simp)+
      from "1.IH" [OF mge e] have "m div 10 = n div 10" .
      moreover from d have "m mod 10 = n mod 10"
        by (simp add: digit_char_inj)
      ultimately show ?thesis
        by (metis div_mult_mod_eq)
    qed
  qed
qed

lemma consumerName_inj: "consumerName c (int i) = consumerName c (int j) \<Longrightarrow> i = j"
  by (auto simp: consumerName_def fmt_d_def dest: fmt_nat_inj)

lemma loops_of_ConsumeStream:
  "loops_of c (ConsumeStream ctx stream) =
     map (\<lambda>i. ConsumeLoop ctx stream (int i)) [0 ..< nat (Concurrency (cfg c))]"
  by (simp add: consumeStream_def Let_def spawned_Go)

lemma presented_append: "presented (xs @ ys) = presented xs @ presented ys"
  by (induction xs rule: presented.induct) simp_all

lemma presented_dispatch:
  assumes "Tracer (cfg c) = Some tr"
  shows "presented (concat (map (\<lambda>msg. fst (processMessage c w ctx stream msg)) msgs)) = []"
  using assms
  by (induction msgs) (simp_all add: presented_append processMessage_def split: option.splits)

lemma consumeLoop_presents:
  assumes "Tracer (cfg c) = Some tr"
  shows "presented (fst (snd (consumeLoop c w ctx stream id' script))) =
           replicate (length (performed script)) (consumerName c id')"
  using assms
proof (induction script arbitrary: c)
  case Nil
  show ?case by simp
next
  case (Cons st script)
  show ?case
  proof (cases st)
    case CtxDone
    then show ?thesis by simp
  next
    case (Poll streams err now)
    show ?thesis
    proof (cases err)
      case (Some e)
      with Poll Cons.IH [OF Cons.prems] show ?thesis
        by (cases "consumeLoop c w ctx stream id' script")
          (simp add: consumeLoop_failure del: consumeLoop.simps)
    next
      case None
      have t: "Tracer (cfg (c\<lparr>lastPoll := now\<rparr>)) = Some tr"
        using Cons.prems by simp
      have n: "consumerName (c\<lparr>lastPoll := now\<rparr>) id' = consumerName c id'"
        by (simp add: consumerName_def)
      from Poll None Cons.IH [OF t] show ?thesis
        by (cases "consumeLoop (c\<lparr>lastPoll := now\<rparr>) w ctx stream id' script")
          (simp add: consumeLoop_success [OF Cons.prems] presented_append
             presented_dispatch [OF t] n del: consumeLoop.simps)
    qed
  qed
qed

lemma concat_map_product:
  "concat (map (\<lambda>x. map (f x) ys) xs) = map (\<lambda>(x, y). f x y) (List.product xs ys)"
  by (induction xs) simp_all

lemma worker_loops_eq:
  assumes "\<not> started c"
  shows "worker_loops c w ctx0 =
           map (\<lambda>(stream, i). ConsumeLoop (WithCancel ctx0) stream (int i))
             (List.product (Streams (cfg c)) [0 ..< nat (Concurrency (cfg c))])"
proof -
  let ?ctx = "WithCancel ctx0"
  let ?c' = "fst (Start c w ctx0)"
  have cfg: "cfg ?c' = cfg c"
    using assms by (simp add: Start_def Let_def)
  have sp: "spawned (fst (snd (Start c w ctx0))) =
              (if HealthAddr (cfg c) \<noteq> '''' then [ServeHealth ?ctx (HealthAddr (cfg c))] else []) @
              map (ConsumeStream ?ctx) (Streams (cfg c))"
    using assms by (simp add: Start_def Let_def spawned_append spawned_createGroup spawned_Go)
  have "worker_loops c w ctx0 = concat (map (loops_of ?c') (spawned (fst (snd (Start c w ctx0)))))"
    by (simp add: worker_loops_def split: prod.splits)
  also have "\<dots> = concat (map (\<lambda>stream. loops_of ?c' (ConsumeStream ?ctx stream)) (Streams (cfg c)))"
    by (simp add: sp comp_def)
  also have "\<dots> = concat (map (\<lambda>stream. map (\<lambda>i. ConsumeLoop ?ctx stream (int i))
                                   [0 ..< nat (Concurrency (cfg c))]) (Streams (cfg c)))"
    by (simp only: loops_of_ConsumeStream cfg)
  finally show ?thesis
    by (simp only: concat_map_product)
qed

text \<open>
  C6, as the code has it. The loops that one stream supervisor starts have the
  identities \<open>prefix-0\<close>, \<open>prefix-1\<close>, ..., one for each index below the
  concurrency, and no two of them the same. Over all the loops of an engine whose stream
  names are pairwise different, no two loops have the same identity on the same
  stream. (The same identities are used again on every stream: a consumer name is
  scoped by the stream's group.) A loop presents its identity, and no other, in every
  group-read it issues.
\<close>

theorem worker_identities_distinct:
  assumes "\<not> started c"
  shows "map (loop_identity c) (loops_of c (ConsumeStream ctx stream)) =
           map (\<lambda>i. ConsumerName (cfg c) @ ''-'' @ fmt_d (int i)) [0 ..< nat (Concurrency (cfg c))] \<and>
         distinct (map (loop_identity c) (loops_of c (ConsumeStream ctx stream))) \<and>
         (distinct (Streams (cfg c)) \<longrightarrow>
            distinct (map (\<lambda>g. (loop_stream g, loop_identity c g)) (worker_loops c w ctx0))) \<and>
         (Tracer (cfg c) \<noteq> None \<longrightarrow>
            presented (fst (snd (consumeLoop c w ctx stream id' script))) =
              replicate (length (performed script))
                (loop_identity c (ConsumeLoop ctx stream id')))"
proof -
  let ?n = "nat (Concurrency (cfg c))"
  have p: "Tracer (cfg c) \<noteq> None \<longrightarrow>
            presented (fst (snd (consumeLoop c w ctx stream id' script))) =
              replicate (length (performed script))
                (loop_identity c (ConsumeLoop ctx stream id'))"
    using consumeLoop_presents [of c _ w ctx stream id' script] by auto
  have a: "map (loop_identity c) (loops_of c (ConsumeStream ctx stream)) =
           map (\<lambda>i. ConsumerName (cfg c) @ ''-'' @ fmt_d (int i)) [0 ..< ?n]"
    by (simp add: loops_of_ConsumeStream comp_def consumerName_def del: loops_of.simps)
  have "inj_on (\<lambda>i. consumerName c (int i)) (set [0 ..< ?n])"
    by (rule inj_onI) (rule consumerName_inj)
  then have b: "distinct (map (loop_identity c) (loops_of c (ConsumeStream ctx stream)))"
    by (simp add: loops_of_ConsumeStream comp_def distinct_map del: loops_of.simps)
  have d: "distinct (map (\<lambda>g. (loop_stream g, loop_identity c g)) (worker_loops c w ctx0))"
    if ds: "distinct (Streams (cfg c))"
  proof -
    have m: "map (\<lambda>g. (loop_stream g, loop_identity c g)) (worker_loops c w ctx0) =
          map (\<lambda>(stream, i). (stream, consumerName c (int i)))
            (List.product (Streams (cfg c)) [0 ..< ?n])"
      by (simp add: worker_loops_eq [OF assms] comp_def case_prod_unfold)
    have "inj (\<lambda>(stream :: string, i). (stream, consumerName c (int i)))"
      by (rule injI) (auto dest: consumerName_inj)
    then have "inj_on (\<lambda>(stream :: string, i). (stream, consumerName c (int i)))
                 (set (List.product (Streams (cfg c)) [0 ..< ?n]))"
      by (rule inj_on_subset) simp
    moreover have "distinct (List.product (Streams (cfg c)) [0 ..< ?n])"
      using ds by (simp add: distinct_product)
    ultimately show ?thesis
      by (simp only: m distinct_map)
  qed
  from a b d p show ?thesis by blast
qed

theorem worker_identities_distinct_witness:
  "(case NewConsumer (main_cfg\<lparr>Concurrency := 2\<rparr>) (Some main_handler) 0 of
      Inl err \<Rightarrow> False
    | Inr c \<Rightarrow>
        \<not> started c \<and> distinct (Streams (cfg c)) \<and> Tracer (cfg c) \<noteq> None \<and>
        map (loop_identity c) (loops_of c (ConsumeStream Background ''events'')) =
          [''c1-0'', ''c1-1''] \<and>
        distinct (map (\<lambda>g. (loop_stream g, loop_identity c g)) (worker_loops c world_ok Background)))"
proof -
  obtain c where c: "NewConsumer (main_cfg\<lparr>Concurrency := 2\<rparr>) (Some main_handler) 0 = Inr c"
    by (simp add: NewConsumer_def main_cfg_def Let_def)
  then have f: "\<not> started c" "Streams (cfg c) = [''events'', ''logs'', ''notifications'']"
    "ConsumerName (cfg c) = ''c1''" "Concurrency (cfg c) = 2" "Tracer (cfg c) \<noteq> None"
    by (auto simp: NewConsumer_def main_cfg_def Let_def)
  have u: "[0 ..< 2 :: nat] = [0, Suc 0]"
    by (simp add: upt_rec)
  have ds: "distinct (Streams (cfg c))"
    using f by simp
  from worker_identities_distinct [OF f(1), of Background "''events''" world_ok Background 0 "[]"] ds f
  show ?thesis
    by (simp add: c u fmt_d_examples del: loops_of.simps)
qed

text \<open>
  C6 as stated fails on the configuration of \<^verbatim>\<open>main.go\<close>: worker 0 of the stream
  \<open>events\<close> and worker 0 of the stream \<open>logs\<close> are two of the loops started, and both
  present the identity \<open>c1-0\<close>.
\<close>

theorem worker_identities_counterexample:
  "(case NewConsumer main_cfg (Some main_handler) 0 of
      Inl err \<Rightarrow> False
    | Inr c \<Rightarrow>
        ConsumeLoop (WithCancel Background) ''events'' 0 \<in> set (worker_loops c world_ok Background) \<and>
        ConsumeLoop (WithCancel Background) ''logs'' 0 \<in> set (worker_loops c world_ok Background) \<and>
        loop_identity c (ConsumeLoop (WithCancel Background) ''events'' 0) = ''c1-0'' \<and>
        loop_identity c (ConsumeLoop (WithCancel Background) ''logs'' 0) = ''c1-0'' \<and>
        \<not> distinct (map (loop_identity c) (worker_loops c world_ok Background)))"
proof -
  from NewConsumer_main [of 0] obtain c
    where c: "NewConsumer main_cfg (Some main_handler) 0 = Inr c"
      and m: "cfg c = main_cfg\<lparr>ReadCount := 10, BlockTime := 5 * Second\<rparr>" "\<not> started c"
    by blast
  then have f: "Streams (cfg c) = [''events'', ''logs'', ''notifications'']"
    "ConsumerName (cfg c) = ''c1''" "Concurrency (cfg c) = 10"
    by (simp_all add: main_cfg_def)
  let ?e = "ConsumeLoop (WithCancel Background) ''events'' 0"
  let ?l = "ConsumeLoop (WithCancel Background) ''logs'' 0"
  let ?ws = "worker_loops c world_ok Background"
  have e: "?e \<in> set ?ws"
    using f by (simp add: worker_loops_eq [OF m(2)] image_iff)
  have l: "?l \<in> set ?ws"
    using f by (simp add: worker_loops_eq [OF m(2)] image_iff)
  have i: "loop_identity c ?e = ''c1-0''" "loop_identity c ?l = ''c1-0''"
    using f by (simp_all add: consumerName_main)
  have ne: "?e \<noteq> ?l"
    by simp
  have "\<not> inj_on (loop_identity c) (set ?ws)"
  proof
    assume "inj_on (loop_identity c) (set ?ws)"
    from inj_onD [OF this _ e l] i have "?e = ?l"
      by simp
    with ne show False ..
  qed
  then have "\<not> distinct (map (loop_identity c) ?ws)"
    by (simp add: distinct_map)
  with e l i show ?thesis
    by (simp add: c)
qed

section \<open>Liveness under running workers\<close>

lemma last_read_time_Cons:
  "last_read_time P t0 (r # reads) = last_read_time P (if P r then step_time r else t0) reads"
  by (simp add: last_read_time_def)

lemma last_read_time_append:
  "last_read_time P t0 (xs @ ys) = last_read_time P (last_read_time P t0 xs) ys"
  by (simp add: last_read_time_def)

lemma consumeLoop_lastPoll:
  assumes "Tracer (cfg c) = Some tr"
  shows "lastPoll (fst (consumeLoop c w ctx stream id' script)) =
           last_read_time successful (lastPoll c) (performed script)"
  using assms
proof (induction script arbitrary: c)
  case Nil
  show ?case by (simp add: last_read_time_def)
next
  case (Cons st script)
  show ?case
  proof (cases st)
    case CtxDone
    then show ?thesis by (simp add: last_read_time_def)
  next
    case (Poll streams err now)
    show ?thesis
    proof (cases err)
      case (Some e)
      with Poll Cons.IH [OF Cons.prems] show ?thesis
        by (cases "consumeLoop c w ctx stream id' script")
          (simp add: consumeLoop_failure last_read_time_Cons del: consumeLoop.simps)
    next
      case None
      have t: "Tracer (cfg (c\<lparr>lastPoll := now\<rparr>)) = Some tr"
        using Cons.prems by simp
      from Poll None Cons.IH [OF t] show ?thesis
        by (cases "consumeLoop (c\<lparr>lastPoll := now\<rparr>) w ctx stream id' script")
          (simp add: consumeLoop_success [OF Cons.prems] last_read_time_Cons
             del: consumeLoop.simps)
    qed
  qed
qed

lemma run_workers_cfg: "cfg (run_workers c w ctx sched) = cfg c"
  by (induction c w ctx sched rule: run_workers.induct) (simp_all add: consumeLoop_cfg)

lemma run_workers_append:
  "run_workers c w ctx (xs @ ys) = run_workers (run_workers c w ctx xs) w ctx ys"
  by (induction c w ctx xs rule: run_workers.induct) simp_all

lemma run_workers_lastPoll:
  assumes "Tracer (cfg c) = Some tr"
  shows "lastPoll (run_workers c w ctx sched) =
           last_read_time successful (lastPoll c) (reads_of sched)"
  using assms
proof (induction c w ctx sched rule: run_workers.induct)
  case (1 c w ctx)
  show ?case by (simp add: reads_of_def last_read_time_def)
next
  case (2 c w ctx stream id' script sched)
  have t: "Tracer (cfg (fst (consumeLoop c w ctx stream id' script))) = Some tr"
    using "2.prems" by (simp add: consumeLoop_cfg)
  from "2.IH" [OF t] show ?case
    using consumeLoop_lastPoll [OF "2.prems", of w ctx stream id' script]
    by (simp add: reads_of_def last_read_time_append)
qed

text \<open>
  C3, as the code has it. After any run of the workers, \<^verbatim>\<open>Health()\<close> returns the error
  exactly when more than 30 seconds have passed since the last read, by any worker on
  any stream, that returned without error, whether or not it delivered an entry, or
  since the timestamp the consumer had before (the construction time) when no read has
  returned without error; otherwise it returns nil. In particular it returns nil at the
  moment a worker completes a read without error, so also a non-empty one.
\<close>

theorem Health_tracks_last_read:
  assumes "Tracer (cfg c) = Some tr"
  shows "Health (run_workers c w ctx sched) now =
           (if now - last_read_time successful (lastPoll c) (reads_of sched) > 30 * Second
            then Some (ErrorString ''no recent poll'') else None) \<and>
         Health (run_workers c w ctx (sched @ [(stream, id', [Poll streams None now])])) now = None"
proof -
  have a: "Health (run_workers c w ctx sched) now =
           (if now - last_read_time successful (lastPoll c) (reads_of sched) > 30 * Second
            then Some (ErrorString ''no recent poll'') else None)"
    by (simp add: Health_def time_Since_gt_30s run_workers_lastPoll [OF assms])
  have t: "Tracer (cfg (run_workers c w ctx sched)) = Some tr"
    using assms by (simp add: run_workers_cfg)
  have "lastPoll (run_workers c w ctx (sched @ [(stream, id', [Poll streams None now])])) = now"
    using consumeLoop_lastPoll [OF t, of w ctx stream id' "[Poll streams None now]"]
    by (simp add: run_workers_append last_read_time_def del: consumeLoop.simps)
  then have b: "Health (run_workers c w ctx (sched @ [(stream, id', [Poll streams None now])])) now = None"
    by (simp add: Health_eq)
  from a b show ?thesis by blast
qed

theorem Health_tracks_last_read_witness:
  "(case NewConsumer main_cfg (Some main_handler) 0 of
      Inl err \<Rightarrow> False
    | Inr c \<Rightarrow>
        Tracer (cfg c) = Some (NamedTracer ''redis-consumer'') \<and>
        last_read_time successful (lastPoll c) (reads_of schedule_with_empty_read) = 20 * Second \<and>
        Health (run_workers c world_ok Background schedule_with_empty_read) (50 * Second) = None \<and>
        Health (run_workers c world_ok Background schedule_with_empty_read) (51 * Second) =
          Some (ErrorString ''no recent poll''))"
proof -
  from NewConsumer_main [of 0] obtain c
    where c: "NewConsumer main_cfg (Some main_handler) 0 = Inr c"
      and m: "cfg c = main_cfg\<lparr>ReadCount := 10, BlockTime := 5 * Second\<rparr>" "lastPoll c = 0"
    by blast
  then have t: "Tracer (cfg c) = Some (NamedTracer ''redis-consumer'')"
    by (simp add: main_cfg_def)
  have l: "last_read_time successful (lastPoll c) (reads_of schedule_with_empty_read) = 20 * Second"
    by (simp add: last_read_time_def reads_of_def schedule_with_empty_read_def)
  from Health_tracks_last_read [OF t, of world_ok Background schedule_with_empty_read "50 * Second"]
    Health_tracks_last_read [OF t, of world_ok Background schedule_with_empty_read "51 * Second"]
  show ?thesis
    using t by (simp add: c l Second_def)
qed

text \<open>
  C3 as stated fails. The last read that returned without error and delivered an entry
  is at second 1; at second 20 a read returns without error and without an entry, and
  the loop sets the timestamp all the same. At second 40 more than 30 seconds have
  passed since the last non-empty read, and \<^verbatim>\<open>Health()\<close> returns nil.
\<close>

theorem Health_nonempty_read_counterexample:
  "(case NewConsumer main_cfg (Some main_handler) 0 of
      Inl err \<Rightarrow> False
    | Inr c \<Rightarrow>
        last_read_time successful_nonempty (lastPoll c) (reads_of schedule_with_empty_read) =
          1 * Second \<and>
        40 * Second -
          last_read_time successful_nonempty (lastPoll c) (reads_of schedule_with_empty_read) >
          30 * Second \<and>
        lastPoll (run_workers c world_ok Background schedule_with_empty_read) = 20 * Second \<and>
        Health (run_workers c world_ok Background schedule_with_empty_read) (40 * Second) = None)"
proof -
  from NewConsumer_main [of 0] obtain c
    where c: "NewConsumer main_cfg (Some main_handler) 0 = Inr c"
      and m: "cfg c = main_cfg\<lparr>ReadCount := 10, BlockTime := 5 * Second\<rparr>" "lastPoll c = 0"
    by blast
  then have t: "Tracer (cfg c) = Some (NamedTracer ''redis-consumer'')"
    by (simp add: main_cfg_def)
  have n: "last_read_time successful_nonempty (lastPoll c) (reads_of schedule_with_empty_read) =
             1 * Second"
    by (simp add: last_read_time_def reads_of_def schedule_with_empty_read_def delivered_def)
  have l: "lastPoll (run_workers c world_ok Background schedule_with_empty_read) = 20 * Second"
    by (simp add: run_workers_lastPoll [OF t] last_read_time_def reads_of_def
        schedule_with_empty_read_def)
  then have h: "Health (run_workers c world_ok Background schedule_with_empty_read) (40 * Second) = None"
    by (simp add: Health_eq Second_def)
  from n l h show ?thesis
    by (simp add: c Second_def)
qed

end
